theory Spec2Isabelle
  imports Complex_Main
begin

section \<open>Data model of the cap-level controller\<close>

text \<open>
  The controller caps the quality level of an adaptive stream to the size of the video
  element that shows it. JavaScript numbers that hold pixel sizes, bitrates and the device
  pixel ratio are doubles, modelled as the reals they denote (NaN and the infinities are
  left out); a product or a difference of two of them is the exact result rounded to the
  nearest double, as the code computes it. Numbers that are used as array indices are
  integers. The one number that can be infinite, the controller's own \<open>autoLevelCapping\<close>,
  has a type with a point at infinity.
\<close>

record RestrictedLevel =
  width :: real
  height :: real
  bitrate :: real

text \<open>The type \<open>{ width: number; height: number }\<close> of \<open>clientRect\<close>.\<close>

record Dimensions =
  width :: real
  height :: real

text \<open>Of a \<open>Level\<close> the controller reads the three fields below and nothing else.\<close>

record Level =
  width :: real
  height :: real
  bitrate :: real

text \<open>What \<open>getBoundingClientRect()\<close> returns, as far as it is read.\<close>

record DOMRect =
  width :: real
  height :: real
  left :: real
  right :: real
  top_edge :: real
  bottom :: real

text \<open>
  A video element, as the controller sees it at one moment: its bounding box and its
  \<open>width\<close> and \<open>height\<close> attributes.
\<close>

record HTMLVideoElement =
  boundingClientRect :: DOMRect
  width :: real
  height :: real

text \<open>The payload of \<open>MEDIA_ATTACHING\<close>: a media element that may or may not be a video.\<close>

datatype HTMLMediaElement = VideoElement HTMLVideoElement | OtherMediaElement

datatype number = Finite int | POSITIVE_INFINITY

datatype error = TypeError

text \<open>How a call ends: it returns, or it throws.\<close>

datatype completion = Normal | Throw error

text \<open>The calls and assignments the controller makes on its collaborators, in order.\<close>

datatype effect = SetAutoLevelCapping int | SetFirstLevel int | NextLevelSwitch

text \<open>
  Of \<open>hls\<close> the controller reads the configuration, the levels and \<open>maxLevelCapping\<close>, and
  it assigns \<open>autoLevelCapping\<close> and \<open>firstLevel\<close>; an assignment is taken to store the value.
\<close>

record HlsConfig =
  capLevelToPlayerSize :: bool
  ignoreDevicePixelRatio :: bool

record Hls =
  config :: HlsConfig
  levels :: "Level list"
  autoLevelCapping :: int
  firstLevel :: int
  maxLevelCapping :: int

text \<open>
  The fields of the class, followed by the part of the environment it reads and writes:
  \<open>self.devicePixelRatio\<close> (\<open>None\<close> when reading it throws), the number of handles
  \<open>self.setInterval\<close> has given out, and the trace of effects on the collaborators.
  \<open>streamController\<close> records whether a stream controller has been registered.
\<close>

record CapLevelController =
  hls :: Hls
  autoLevelCapping :: number
  firstLevel :: int
  media :: "HTMLVideoElement option"
  restrictedLevels :: "RestrictedLevel list"
  timer :: "nat option"
  clientRect :: "Dimensions option"
  streamController :: bool
  devicePixelRatio :: "real option"
  intervals :: nat
  effects :: "effect list"

section \<open>Operations\<close>

text \<open>\<open>xs[i]\<close> in JavaScript: \<open>undefined\<close> (here \<open>None\<close>) outside the array.\<close>

definition array_get :: "'a list \<Rightarrow> int \<Rightarrow> 'a option" where
  "array_get xs i = (if 0 \<le> i \<and> i < int (length xs) then Some (xs ! nat i) else None)"

text \<open>\<open>a || b\<close> on numbers.\<close>

definition js_or :: "real \<Rightarrow> real \<Rightarrow> real" where
  "js_or a b = (if a \<noteq> 0 then a else b)"

text \<open>The integer nearest a real, the even one of the two when it lies half way.\<close>

definition round_half_even :: "real \<Rightarrow> int" where
  "round_half_even r =
     (let f = \<lfloor>r\<rfloor>; d = r - of_int f in
      if d < 1 / 2 then f else if 1 / 2 < d then f + 1 else if even f then f else f + 1)"

text \<open>
  The double nearest a real, ties to even: 53 significant bits at the exponent of the
  number, which is at least that of the subnormal numbers. A result too large to be a
  finite double is left out.
\<close>

definition round_double :: "real \<Rightarrow> real" where
  "round_double x =
     (if x = 0 then 0
      else
        (let e = max \<lfloor>log 2 \<bar>x\<bar>\<rfloor> (- 1022);
             ulp = 2 powr of_int (e - 52)
         in of_int (round_half_even (x / ulp)) * ulp))"

text \<open>\<open>a * b\<close> and \<open>a - b\<close> on numbers.\<close>

definition js_times :: "real \<Rightarrow> real \<Rightarrow> real" where
  "js_times a b = round_double (a * b)"

definition js_minus :: "real \<Rightarrow> real \<Rightarrow> real" where
  "js_minus a b = round_double (a - b)"

text \<open>\<open>a > b\<close> where \<open>b\<close> may be \<open>Number.POSITIVE_INFINITY\<close>.\<close>

fun greater :: "int \<Rightarrow> number \<Rightarrow> bool" where
  "greater a (Finite b) = (a > b)"
| "greater a POSITIVE_INFINITY = False"

text \<open>The constructor: the fields as it sets them, around a given \<open>hls\<close> and environment.\<close>

definition constructor :: "Hls \<Rightarrow> real option \<Rightarrow> CapLevelController" where
  "constructor h ratio =
     \<lparr>hls = h, autoLevelCapping = POSITIVE_INFINITY, firstLevel = - 1, media = None,
      restrictedLevels = [], timer = None, clientRect = None, streamController = False,
      devicePixelRatio = ratio, intervals = 0, effects = []\<rparr>"

definition setStreamController :: "CapLevelController \<Rightarrow> CapLevelController" where
  "setStreamController s = s\<lparr>streamController := True\<rparr>"

text \<open>
  \<open>isLevelAllowed\<close> receives \<open>hls.levels[i]\<close>, which is \<open>undefined\<close> for an index outside the
  list. \<open>some\<close> calls its callback on the first restricted level, if there is one, and the
  callback reads \<open>level.bitrate\<close>: on \<open>undefined\<close> that is a TypeError. With no restricted
  level the callback never runs and the answer is \<open>true\<close>.
\<close>

definition isLevelAllowed :: "CapLevelController \<Rightarrow> Level option \<Rightarrow> error + bool" where
  "isLevelAllowed s level =
     (case level of
        Some l \<Rightarrow>
          Inr (\<not> list_ex (\<lambda>restrictedLevel.
                 Level.bitrate l = RestrictedLevel.bitrate restrictedLevel \<and>
                 Level.width l = RestrictedLevel.width restrictedLevel \<and>
                 Level.height l = RestrictedLevel.height restrictedLevel) (restrictedLevels s))
      | None \<Rightarrow> (if restrictedLevels s = [] then Inr True else Inl TypeError))"

text \<open>
  The handler returns how it completed and the state it leaves. The object literal pushed
  reads \<open>level.bitrate\<close> first, which throws on \<open>undefined\<close> before anything is pushed.
\<close>

definition onFpsDropLevelCapping :: "CapLevelController \<Rightarrow> int \<Rightarrow> completion \<times> CapLevelController" where
  "onFpsDropLevelCapping s droppedLevel =
     (let level = array_get (levels (hls s)) droppedLevel in
      case isLevelAllowed s level of
        Inl e \<Rightarrow> (Throw e, s)
      | Inr allowed \<Rightarrow>
          if allowed then
            (case level of
               None \<Rightarrow> (Throw TypeError, s)
             | Some l \<Rightarrow>
                 (Normal, s\<lparr>restrictedLevels := restrictedLevels s @
                    [\<lparr>RestrictedLevel.width = Level.width l,
                      height = Level.height l,
                      bitrate = Level.bitrate l\<rparr>]\<rparr>))
          else (Normal, s))"

definition onMediaAttaching :: "CapLevelController \<Rightarrow> HTMLMediaElement \<Rightarrow> CapLevelController" where
  "onMediaAttaching s data_media =
     s\<lparr>media := (case data_media of VideoElement v \<Rightarrow> Some v | OtherMediaElement \<Rightarrow> None),
       clientRect := None\<rparr>"

text \<open>
  The box \<open>getDimensions\<close> measures when nothing is cached: the bounding box of the element,
  or, when that has neither width nor height, its extent and then its attributes.
\<close>

definition boundsRect :: "HTMLVideoElement option \<Rightarrow> Dimensions" where
  "boundsRect el =
     (case el of
        None \<Rightarrow> \<lparr>Dimensions.width = 0, height = 0\<rparr>
      | Some m \<Rightarrow>
          (let r = boundingClientRect m in
           if DOMRect.width r = 0 \<and> DOMRect.height r = 0 then
             \<lparr>Dimensions.width =
                js_or (js_minus (right r) (left r)) (js_or (HTMLVideoElement.width m) 0),
              height =
                js_or (js_minus (bottom r) (top_edge r)) (js_or (HTMLVideoElement.height m) 0)\<rparr>
           else \<lparr>Dimensions.width = DOMRect.width r, height = DOMRect.height r\<rparr>))"

definition getDimensions :: "CapLevelController \<Rightarrow> Dimensions \<times> CapLevelController" where
  "getDimensions s =
     (case clientRect s of
        Some r \<Rightarrow> (r, s)
      | None \<Rightarrow> (boundsRect (media s), s\<lparr>clientRect := Some (boundsRect (media s))\<rparr>))"

definition contentScaleFactor :: "CapLevelController \<Rightarrow> real" where
  "contentScaleFactor s =
     (if \<not> ignoreDevicePixelRatio (config (hls s)) then
        (case devicePixelRatio s of Some r \<Rightarrow> r | None \<Rightarrow> 1)
      else 1)"

definition mediaWidth :: "CapLevelController \<Rightarrow> real \<times> CapLevelController" where
  "mediaWidth s =
     (case getDimensions s of (d, s') \<Rightarrow> (js_times (Dimensions.width d) (contentScaleFactor s'), s'))"

definition mediaHeight :: "CapLevelController \<Rightarrow> real \<times> CapLevelController" where
  "mediaHeight s =
     (case getDimensions s of (d, s') \<Rightarrow> (js_times (Dimensions.height d) (contentScaleFactor s'), s'))"

definition atGreatestBandwidth :: "Level \<Rightarrow> Level option \<Rightarrow> bool" where
  "atGreatestBandwidth curLevel nextLevel =
     (case nextLevel of
        None \<Rightarrow> True
      | Some n \<Rightarrow> Level.width curLevel \<noteq> Level.width n \<or> Level.height curLevel \<noteq> Level.height n)"

text \<open>
  The \<open>for\<close> loop of \<open>getMaxLevelByMediaSize\<close> from index \<open>i\<close> on: the first index that
  matches, or \<open>levels.length - 1\<close> when the loop runs to the end.
\<close>

function getMaxLevelByMediaSize_loop :: "Level list \<Rightarrow> real \<Rightarrow> real \<Rightarrow> nat \<Rightarrow> int" where
  "getMaxLevelByMediaSize_loop lvls w h i =
     (if i < length lvls then
        (if (Level.width (lvls ! i) \<ge> w \<or> Level.height (lvls ! i) \<ge> h) \<and>
            atGreatestBandwidth (lvls ! i) (array_get lvls (int i + 1))
         then int i
         else getMaxLevelByMediaSize_loop lvls w h (i + 1))
      else int (length lvls) - 1)"
  by pat_completeness auto
termination
  by (relation "measure (\<lambda>(lvls, w, h, i). length lvls - i)") auto

declare getMaxLevelByMediaSize_loop.simps [simp del]

definition getMaxLevelByMediaSize :: "Level list \<Rightarrow> real \<Rightarrow> real \<Rightarrow> int" where
  "getMaxLevelByMediaSize lvls w h =
     (if lvls = [] then - 1 else getMaxLevelByMediaSize_loop lvls w h 0)"

text \<open>
  The local \<open>validLevels\<close> of \<open>getMaxLevel\<close>: the levels that are allowed and stand at an
  index up to \<open>capLevelIndex\<close>, in their order.
\<close>

definition validLevels :: "CapLevelController \<Rightarrow> int \<Rightarrow> Level list" where
  "validLevels s capLevelIndex =
     map snd (filter (\<lambda>(index, level).
                isLevelAllowed s (Some level) = Inr True \<and> int index \<le> capLevelIndex)
              (enumerate 0 (levels (hls s))))"

definition getMaxLevel :: "CapLevelController \<Rightarrow> int \<Rightarrow> int \<times> CapLevelController" where
  "getMaxLevel s capLevelIndex =
     (if levels (hls s) = [] then (- 1, s)
      else
        (let valid = validLevels s capLevelIndex;
             s1 = s\<lparr>clientRect := None\<rparr>
         in case mediaWidth s1 of (w, s2) \<Rightarrow>
            case mediaHeight s2 of (h, s3) \<Rightarrow>
              (let maxLevelByMediaSize = getMaxLevelByMediaSize valid w h in
               if maxLevelCapping (hls s3) \<noteq> - 1
               then (min (maxLevelCapping (hls s3)) maxLevelByMediaSize, s3)
               else (maxLevelByMediaSize, s3))))"

text \<open>The assignment \<open>hls.autoLevelCapping = c\<close>, which publishes the cap.\<close>

definition set_hls_autoLevelCapping :: "int \<Rightarrow> CapLevelController \<Rightarrow> CapLevelController" where
  "set_hls_autoLevelCapping c s =
     s\<lparr>hls := (hls s)\<lparr>Hls.autoLevelCapping := c\<rparr>, effects := effects s @ [SetAutoLevelCapping c]\<rparr>"

definition set_hls_firstLevel :: "int \<Rightarrow> CapLevelController \<Rightarrow> CapLevelController" where
  "set_hls_firstLevel c s =
     s\<lparr>hls := (hls s)\<lparr>Hls.firstLevel := c\<rparr>, effects := effects s @ [SetFirstLevel c]\<rparr>"

definition nextLevelSwitch :: "CapLevelController \<Rightarrow> CapLevelController" where
  "nextLevelSwitch s = s\<lparr>effects := effects s @ [NextLevelSwitch]\<rparr>"

definition detectPlayerSize :: "CapLevelController \<Rightarrow> CapLevelController" where
  "detectPlayerSize s =
     (case media s of
        None \<Rightarrow> s
      | Some m \<Rightarrow>
          (case mediaHeight s of (h, s1) \<Rightarrow>
             if \<not> h > 0 then s1
             else
               (case mediaWidth s1 of (w, s2) \<Rightarrow>
                  if \<not> w > 0 then s2
                  else if levels (hls s2) = [] then s2
                  else
                    (case getMaxLevel s2 (int (length (levels (hls s2))) - 1) of (c, s3) \<Rightarrow>
                       (let s4 = set_hls_autoLevelCapping c s3;
                            s5 = (if greater (Hls.autoLevelCapping (hls s4))
                                       (CapLevelController.autoLevelCapping s4) \<and>
                                     streamController s4
                                  then nextLevelSwitch s4 else s4)
                        in s5\<lparr>CapLevelController.autoLevelCapping :=
                                 Finite (Hls.autoLevelCapping (hls s5))\<rparr>)))))"

text \<open>\<open>if (this.timer)\<close>: a handle is truthy unless it is \<open>0\<close>.\<close>

definition timer_set :: "CapLevelController \<Rightarrow> bool" where
  "timer_set s = (case timer s of None \<Rightarrow> False | Some t \<Rightarrow> t \<noteq> 0)"

text \<open>
  \<open>self.setInterval\<close> hands out a fresh positive handle. The \<open>clearInterval\<close> before it
  clears a timer that the guard above has found unset, and does nothing.
\<close>

definition startCapping :: "CapLevelController \<Rightarrow> CapLevelController" where
  "startCapping s =
     (if timer_set s then s
      else
        (let s1 = s\<lparr>CapLevelController.autoLevelCapping := POSITIVE_INFINITY\<rparr> in
         case getMaxLevel s1 (CapLevelController.firstLevel s1) of (c, s2) \<Rightarrow>
           (let s3 = set_hls_firstLevel c s2;
                s4 = s3\<lparr>timer := Some (Suc (intervals s3)), intervals := Suc (intervals s3)\<rparr>
            in detectPlayerSize s4)))"

definition stopCapping :: "CapLevelController \<Rightarrow> CapLevelController" where
  "stopCapping s =
     (let s1 = s\<lparr>restrictedLevels := [], CapLevelController.firstLevel := - 1,
                 CapLevelController.autoLevelCapping := POSITIVE_INFINITY\<rparr>
      in if timer_set s1 then s1\<lparr>timer := None\<rparr> else s1)"

definition onManifestParsed :: "CapLevelController \<Rightarrow> int \<Rightarrow> bool \<Rightarrow> CapLevelController" where
  "onManifestParsed s data_firstLevel data_video =
     (let s1 = s\<lparr>restrictedLevels := [], CapLevelController.firstLevel := data_firstLevel\<rparr>
      in if capLevelToPlayerSize (config (hls s1)) \<and> data_video then startCapping s1 else s1)"

definition onBufferCodecs :: "CapLevelController \<Rightarrow> bool \<Rightarrow> CapLevelController" where
  "onBufferCodecs s data_video =
     (if capLevelToPlayerSize (config (hls s)) \<and> data_video then startCapping s else s)"

definition onMediaDetaching :: "CapLevelController \<Rightarrow> CapLevelController" where
  "onMediaDetaching s = stopCapping s"

subsection \<open>Delivery of events\<close>

text \<open>
  \<open>registerListeners\<close> binds one handler to each of five events; the timer calls
  \<open>detectPlayerSize\<close> while it is armed; \<open>setStreamController\<close> is called from outside.
  A handler that throws leaves the state as it was when it threw. \<open>destroy\<close>, which unbinds
  the handlers and drops the reference to \<open>hls\<close>, ends the life of the controller and is
  not modelled.
\<close>

datatype input =
    FPS_DROP_LEVEL_CAPPING int
  | MEDIA_ATTACHING HTMLMediaElement
  | MANIFEST_PARSED int bool
  | BUFFER_CODECS bool
  | MEDIA_DETACHING
  | TIMER_TICK
  | SET_STREAM_CONTROLLER

fun deliver :: "CapLevelController \<Rightarrow> input \<Rightarrow> CapLevelController" where
  "deliver s (FPS_DROP_LEVEL_CAPPING droppedLevel) = snd (onFpsDropLevelCapping s droppedLevel)"
| "deliver s (MEDIA_ATTACHING m) = onMediaAttaching s m"
| "deliver s (MANIFEST_PARSED fl video) = onManifestParsed s fl video"
| "deliver s (BUFFER_CODECS video) = onBufferCodecs s video"
| "deliver s MEDIA_DETACHING = onMediaDetaching s"
| "deliver s TIMER_TICK = (if timer_set s then detectPlayerSize s else s)"
| "deliver s SET_STREAM_CONTROLLER = setStreamController s"

definition run :: "CapLevelController \<Rightarrow> input list \<Rightarrow> CapLevelController" where
  "run s ins = foldl deliver s ins"

section \<open>Notions used in the statements\<close>

text \<open>A level covers a footprint when it is at least as wide or at least as high.\<close>

definition covers :: "Level \<Rightarrow> real \<Rightarrow> real \<Rightarrow> bool" where
  "covers level w h = (Level.width level \<ge> w \<or> Level.height level \<ge> h)"

text \<open>The test of the loop at index \<open>i\<close>.\<close>

definition matches :: "Level list \<Rightarrow> real \<Rightarrow> real \<Rightarrow> nat \<Rightarrow> bool" where
  "matches lvls w h i =
     (covers (lvls ! i) w h \<and> atGreatestBandwidth (lvls ! i) (array_get lvls (int i + 1)))"

text \<open>
  The value of the local \<open>maxLevelByMediaSize\<close> of \<open>getMaxLevel\<close>: the cap computed from the
  size alone, on a fresh measurement of the element.
\<close>

definition maxLevelByMediaSize :: "CapLevelController \<Rightarrow> int \<Rightarrow> int" where
  "maxLevelByMediaSize s capLevelIndex =
     getMaxLevelByMediaSize (validLevels s capLevelIndex)
       (js_times (Dimensions.width (boundsRect (media s))) (contentScaleFactor s))
       (js_times (Dimensions.height (boundsRect (media s))) (contentScaleFactor s))"

text \<open>
  The footprint of the surface as it measures now: what the getters \<open>mediaWidth\<close> and
  \<open>mediaHeight\<close> return on an empty cache.
\<close>

definition measuredWidth :: "CapLevelController \<Rightarrow> real" where
  "measuredWidth s =
     js_times (Dimensions.width (boundsRect (media s))) (contentScaleFactor s)"

definition measuredHeight :: "CapLevelController \<Rightarrow> real" where
  "measuredHeight s =
     js_times (Dimensions.height (boundsRect (media s))) (contentScaleFactor s)"

text \<open>The guard of \<open>detectPlayerSize\<close>: whether a tick computes and publishes a cap.\<close>

definition tick_evaluates :: "CapLevelController \<Rightarrow> bool" where
  "tick_evaluates s =
     (media s \<noteq> None \<and> 0 < fst (mediaHeight s) \<and> 0 < fst (mediaWidth s) \<and>
      levels (hls s) \<noteq> [])"

text \<open>The cap such a tick computes.\<close>

definition new_cap :: "CapLevelController \<Rightarrow> int" where
  "new_cap s = fst (getMaxLevel s (int (length (levels (hls s))) - 1))"

section \<open>Example configurations\<close>

definition rung :: "real \<Rightarrow> real \<Rightarrow> real \<Rightarrow> Level" where
  "rung w h b = \<lparr>Level.width = w, height = h, bitrate = b\<rparr>"

definition hls_with :: "Level list \<Rightarrow> int \<Rightarrow> Hls" where
  "hls_with lvls cap =
     \<lparr>config = \<lparr>capLevelToPlayerSize = True, ignoreDevicePixelRatio = False\<rparr>,
      levels = lvls, autoLevelCapping = - 1, firstLevel = 0, maxLevelCapping = cap\<rparr>"

definition video_of_size :: "real \<Rightarrow> real \<Rightarrow> HTMLVideoElement" where
  "video_of_size w h =
     \<lparr>boundingClientRect =
        \<lparr>DOMRect.width = w, height = h, left = 0, right = w, top_edge = 0, bottom = h\<rparr>,
      width = 0, height = 0\<rparr>"

text \<open>
  A controller on the given levels and \<open>maxLevelCapping\<close>, at device pixel ratio 1, to which
  a video element of the given size has been attached.
\<close>

definition player :: "Level list \<Rightarrow> int \<Rightarrow> real \<Rightarrow> real \<Rightarrow> CapLevelController" where
  "player lvls cap w h =
     onMediaAttaching (constructor (hls_with lvls cap) (Some 1)) (VideoElement (video_of_size w h))"

definition three_rungs :: "Level list" where
  "three_rungs = [rung 320 180 100000, rung 640 360 500000, rung 1280 720 1500000]"

definition four_rungs :: "Level list" where
  "four_rungs =
     [rung 320 180 100000, rung 640 360 500000, rung 1280 720 1500000, rung 1920 1080 3000000]"

definition tie_break_rungs :: "Level list" where
  "tie_break_rungs = [rung 640 360 500000, rung 640 360 800000, rung 1280 720 1500000]"

text \<open>
  A player with a registered stream controller that has published cap 1 from a 640 x 360
  element.
\<close>

definition capped_player :: CapLevelController where
  "capped_player = detectPlayerSize (setStreamController (player four_rungs (- 1) 640 360))"

text \<open>
  A player on three levels whose element measures 1280 x 720, after a drop notification for
  level 0.
\<close>

definition restricted_player :: CapLevelController where
  "restricted_player = snd (onFpsDropLevelCapping (player three_rungs (- 1) 1280 720) 0)"

text \<open>
  The attached element takes another layout, of which the controller is not told: its
  fields, the cache among them, stay as they are.
\<close>

definition layout :: "HTMLVideoElement \<Rightarrow> CapLevelController \<Rightarrow> CapLevelController" where
  "layout el s = (case media s of None \<Rightarrow> s | Some m \<Rightarrow> s\<lparr>media := Some el\<rparr>)"

text \<open>The player that has published cap 1, after its element has shrunk to nothing.\<close>

definition hidden_player :: CapLevelController where
  "hidden_player = layout (video_of_size 0 0) capped_player"

section \<open>Rounding\<close>

lemma round_half_even_of_int [simp]: "round_half_even (of_int m) = m"
  by (simp add: round_half_even_def)

text \<open>An integer below \<open>2 ^ 53\<close> in absolute value is a double.\<close>

lemma round_double_of_int:
  assumes "\<bar>n\<bar> < 2 ^ 53"
  shows "round_double (of_int n) = of_int n"
proof (cases "n = 0")
  case True
  then show ?thesis by (simp add: round_double_def)
next
  case False
  define x :: real where "x = of_int n"
  have x1: "1 \<le> \<bar>x\<bar>" using False by (simp add: x_def flip: of_int_abs)
  have x2: "\<bar>x\<bar> < 2 ^ 53" using assms unfolding x_def
    by (metis of_int_abs of_int_less_iff of_int_numeral of_int_power)
  have l0: "0 \<le> log 2 \<bar>x\<bar>" using x1 by simp
  have "\<bar>x\<bar> < 2 powr 53" using x2 by simp
  then have l1: "log 2 \<bar>x\<bar> < 53" using x1 by (subst log_less_iff) auto
  define e where "e = \<lfloor>log 2 \<bar>x\<bar>\<rfloor>"
  have e0: "0 \<le> e" using l0 by (simp add: e_def)
  have e1: "e \<le> 52" using l1 unfolding e_def by (simp add: floor_le_iff)
  define k where "k = nat (52 - e)"
  have ek: "real_of_int e - 52 = - real k" using e1 by (simp add: k_def)
  have ulp: "2 powr (real_of_int e - 52) = 1 / 2 ^ k"
    by (simp add: ek powr_minus powr_realpow divide_inverse)
  have m: "max \<lfloor>log 2 \<bar>real_of_int n\<bar>\<rfloor> (- 1022) = e"
    using e0 by (simp add: e_def x_def)
  have r: "round_half_even (real_of_int n * 2 ^ k) = n * 2 ^ k"
    using round_half_even_of_int [of "n * 2 ^ k"] by simp
  show ?thesis
    using False by (simp add: round_double_def Let_def m ulp r)
qed

lemma round_double_numeral [simp]:
  "(numeral k :: int) < 2 ^ 53 \<Longrightarrow> round_double (numeral k) = numeral k"
  using round_double_of_int [of "numeral k"] by simp

lemma round_double_0 [simp]: "round_double 0 = 0"
  by (simp add: round_double_def)

text \<open>At a device pixel ratio of 1 a size that is a small integer is not changed.\<close>

lemma js_times_numeral_1 [simp]:
  "(numeral k :: int) < 2 ^ 53 \<Longrightarrow> js_times (numeral k) 1 = numeral k"
  by (simp add: js_times_def)

lemma js_times_0 [simp]: "js_times 0 b = 0"
  by (simp add: js_times_def)

lemma js_minus_0_0 [simp]: "js_minus 0 0 = 0"
  by (simp add: js_minus_def)

section \<open>The measurement and its cache\<close>

lemma contentScaleFactor_clientRect [simp]:
  "contentScaleFactor (s\<lparr>clientRect := c\<rparr>) = contentScaleFactor s"
  by (simp add: contentScaleFactor_def)

lemma validLevels_clientRect [simp]:
  "validLevels (s\<lparr>clientRect := c\<rparr>) cap = validLevels s cap"
  by (simp add: validLevels_def isLevelAllowed_def)

lemma getDimensions_snd:
  "snd (getDimensions s) = s\<lparr>clientRect := Some (fst (getDimensions s))\<rparr>"
  by (cases "clientRect s") (simp_all add: getDimensions_def)

lemma getDimensions_cached:
  "getDimensions (s\<lparr>clientRect := Some r\<rparr>) = (r, s\<lparr>clientRect := Some r\<rparr>)"
  by (simp add: getDimensions_def)

lemma mediaHeight_eq:
  "mediaHeight s = (js_times (Dimensions.height (fst (getDimensions s))) (contentScaleFactor s),
                    s\<lparr>clientRect := Some (fst (getDimensions s))\<rparr>)"
  using getDimensions_snd [of s] by (cases "getDimensions s") (simp add: mediaHeight_def)

lemma mediaWidth_eq:
  "mediaWidth s = (js_times (Dimensions.width (fst (getDimensions s))) (contentScaleFactor s),
                   s\<lparr>clientRect := Some (fst (getDimensions s))\<rparr>)"
  using getDimensions_snd [of s] by (cases "getDimensions s") (simp add: mediaWidth_def)

lemma getDimensions_fresh:
  "getDimensions (s\<lparr>clientRect := None\<rparr>) =
     (boundsRect (media s), s\<lparr>clientRect := Some (boundsRect (media s))\<rparr>)"
  by (simp add: getDimensions_def)

lemma getMaxLevel_empty: "levels (hls s) = [] \<Longrightarrow> getMaxLevel s cap = (- 1, s)"
  by (simp add: getMaxLevel_def)

lemma getMaxLevel_nonempty:
  "levels (hls s) \<noteq> [] \<Longrightarrow>
   getMaxLevel s cap =
     (if maxLevelCapping (hls s) \<noteq> - 1
      then min (maxLevelCapping (hls s)) (maxLevelByMediaSize s cap)
      else maxLevelByMediaSize s cap,
      s\<lparr>clientRect := Some (boundsRect (media s))\<rparr>)"
  by (simp add: getMaxLevel_def mediaWidth_eq mediaHeight_eq getDimensions_fresh
      getDimensions_cached maxLevelByMediaSize_def Let_def)

lemma getMaxLevel_cached:
  "getMaxLevel (s\<lparr>clientRect := c\<rparr>) cap =
     (fst (getMaxLevel s cap),
      if levels (hls s) = [] then s\<lparr>clientRect := c\<rparr> else snd (getMaxLevel s cap))"
  by (cases "levels (hls s) = []")
     (simp_all add: getMaxLevel_empty getMaxLevel_nonempty maxLevelByMediaSize_def)

lemma detectPlayerSize_no_media: "media s = None \<Longrightarrow> detectPlayerSize s = s"
  by (simp add: detectPlayerSize_def)

lemma detectPlayerSize_skip:
  assumes "\<not> tick_evaluates s"
  shows "detectPlayerSize s =
           (if media s = None then s else s\<lparr>clientRect := Some (fst (getDimensions s))\<rparr>)"
proof (cases "media s")
  case None
  then show ?thesis by (simp add: detectPlayerSize_def)
next
  case (Some m)
  with assms have
    "\<not> 0 < js_times (Dimensions.height (fst (getDimensions s))) (contentScaleFactor s) \<or>
     \<not> 0 < js_times (Dimensions.width (fst (getDimensions s))) (contentScaleFactor s) \<or>
     levels (hls s) = []"
    by (auto simp: tick_evaluates_def mediaHeight_eq mediaWidth_eq)
  with Some show ?thesis
    by (auto simp: detectPlayerSize_def mediaHeight_eq mediaWidth_eq getDimensions_cached)
qed

lemma detectPlayerSize_evaluates:
  assumes "tick_evaluates s"
  shows "detectPlayerSize s =
     s\<lparr>hls := (hls s)\<lparr>Hls.autoLevelCapping := new_cap s\<rparr>,
       CapLevelController.autoLevelCapping := Finite (new_cap s),
       clientRect := Some (boundsRect (media s)),
       effects := effects s @ SetAutoLevelCapping (new_cap s) #
         (if greater (new_cap s) (CapLevelController.autoLevelCapping s) \<and> streamController s
          then [NextLevelSwitch] else [])\<rparr>"
proof -
  from assms obtain m where m: "media s = Some m"
    and h: "0 < js_times (Dimensions.height (fst (getDimensions s))) (contentScaleFactor s)"
    and w: "0 < js_times (Dimensions.width (fst (getDimensions s))) (contentScaleFactor s)"
    and l: "levels (hls s) \<noteq> []"
    by (auto simp: tick_evaluates_def mediaHeight_eq mediaWidth_eq)
  from l have g: "getMaxLevel (s\<lparr>clientRect := Some (fst (getDimensions s))\<rparr>)
        (int (length (levels (hls s))) - 1) =
      (new_cap s, s\<lparr>clientRect := Some (boundsRect (media s))\<rparr>)"
    by (simp add: getMaxLevel_cached new_cap_def getMaxLevel_nonempty)
  show ?thesis
    using m h w l g
    by (simp add: detectPlayerSize_def mediaHeight_eq mediaWidth_eq getDimensions_cached
        set_hls_autoLevelCapping_def nextLevelSwitch_def Let_def)
qed

section \<open>What the handlers leave unchanged\<close>

lemma getMaxLevel_state:
  "snd (getMaxLevel s cap) =
     (if levels (hls s) = [] then s else s\<lparr>clientRect := Some (boundsRect (media s))\<rparr>)"
  by (simp add: getMaxLevel_empty getMaxLevel_nonempty)

lemma getMaxLevel_fields [simp]:
  "hls (snd (getMaxLevel s cap)) = hls s"
  "media (snd (getMaxLevel s cap)) = media s"
  "restrictedLevels (snd (getMaxLevel s cap)) = restrictedLevels s"
  by (simp_all add: getMaxLevel_state)

lemma detectPlayerSize_fields [simp]:
  "media (detectPlayerSize s) = media s"
  "restrictedLevels (detectPlayerSize s) = restrictedLevels s"
  by (cases "tick_evaluates s"; simp add: detectPlayerSize_evaluates detectPlayerSize_skip)+

lemma startCapping_fields [simp]:
  "media (startCapping s) = media s"
  "restrictedLevels (startCapping s) = restrictedLevels s"
  by (simp_all add: startCapping_def Let_def case_prod_unfold set_hls_firstLevel_def)

lemma startCapping_no_media:
  "media s = None \<Longrightarrow>
   Hls.autoLevelCapping (hls (startCapping s)) = Hls.autoLevelCapping (hls s)"
  by (simp add: startCapping_def Let_def case_prod_unfold set_hls_firstLevel_def
      detectPlayerSize_no_media)

lemma stopCapping_fields [simp]:
  "restrictedLevels (stopCapping s) = []" "media (stopCapping s) = media s"
  "hls (stopCapping s) = hls s"
  by (simp_all add: stopCapping_def Let_def)

section \<open>The restricted levels\<close>

lemma RestrictedLevel_eta:
  "\<lparr>RestrictedLevel.width = RestrictedLevel.width r, height = RestrictedLevel.height r,
    bitrate = RestrictedLevel.bitrate r\<rparr> = (r :: RestrictedLevel)"
  by (cases r) simp

lemma onFpsDropLevelCapping_distinct:
  assumes "distinct (restrictedLevels s)"
  shows "distinct (restrictedLevels (snd (onFpsDropLevelCapping s i)))"
proof (cases "array_get (levels (hls s)) i")
  case None
  with assms show ?thesis
    by (simp add: onFpsDropLevelCapping_def isLevelAllowed_def)
next
  case (Some l)
  define r where "r = \<lparr>RestrictedLevel.width = Level.width l, height = Level.height l,
                        bitrate = Level.bitrate l\<rparr>"
  have "isLevelAllowed s (Some l) = Inr (r \<notin> set (restrictedLevels s))"
    by (auto simp: isLevelAllowed_def list_ex_iff r_def RestrictedLevel_eta)
  with Some assms show ?thesis
    by (simp add: onFpsDropLevelCapping_def r_def)
qed

lemma onFpsDropLevelCapping_fields [simp]:
  "media (snd (onFpsDropLevelCapping s i)) = media s"
  "hls (snd (onFpsDropLevelCapping s i)) = hls s"
  by (simp_all add: onFpsDropLevelCapping_def Let_def split: sum.split option.split)

lemma deliver_distinct:
  "distinct (restrictedLevels s) \<Longrightarrow> distinct (restrictedLevels (deliver s i))"
  by (cases i)
     (simp_all add: onFpsDropLevelCapping_distinct onMediaAttaching_def onManifestParsed_def
        onBufferCodecs_def onMediaDetaching_def setStreamController_def Let_def)

lemma run_distinct:
  "distinct (restrictedLevels s) \<Longrightarrow> distinct (restrictedLevels (run s ins))"
  unfolding run_def by (induction ins arbitrary: s) (simp_all add: deliver_distinct)

lemma drop_twice:
  assumes "restrictedLevels s = []" and "0 \<le> i" and "i < int (length (levels (hls s)))"
  shows "length (restrictedLevels (run s [FPS_DROP_LEVEL_CAPPING i, FPS_DROP_LEVEL_CAPPING i])) = 1"
proof -
  from assms(2,3) have g: "array_get (levels (hls s)) i = Some (levels (hls s) ! nat i)"
    by (simp add: array_get_def)
  show ?thesis using assms(1) g
    by (simp add: run_def onFpsDropLevelCapping_def isLevelAllowed_def)
qed

section \<open>While no video element is attached\<close>

lemma deliver_no_media:
  assumes "media s = None" and "\<forall>m. i \<noteq> MEDIA_ATTACHING (VideoElement m)"
  shows "media (deliver s i) = None \<and>
         Hls.autoLevelCapping (hls (deliver s i)) = Hls.autoLevelCapping (hls s)"
proof (cases i)
  case (MEDIA_ATTACHING m)
  with assms show ?thesis by (cases m) (simp_all add: onMediaAttaching_def)
next
  case (MANIFEST_PARSED fl v)
  with assms show ?thesis
    by (simp add: onManifestParsed_def Let_def startCapping_no_media)
next
  case (BUFFER_CODECS v)
  with assms show ?thesis by (simp add: onBufferCodecs_def startCapping_no_media)
qed (use assms in \<open>simp_all add: onMediaDetaching_def setStreamController_def detectPlayerSize_no_media\<close>)

lemma run_no_media:
  "media s = None \<Longrightarrow> \<forall>m. MEDIA_ATTACHING (VideoElement m) \<notin> set ins \<Longrightarrow>
   media (run s ins) = None \<and>
   Hls.autoLevelCapping (hls (run s ins)) = Hls.autoLevelCapping (hls s)"
proof (induction ins arbitrary: s)
  case Nil
  then show ?case by (simp add: run_def)
next
  case (Cons i ins)
  from Cons.prems have i: "\<forall>m. i \<noteq> MEDIA_ATTACHING (VideoElement m)"
    and rest: "\<forall>m. MEDIA_ATTACHING (VideoElement m) \<notin> set ins" by auto
  from deliver_no_media [OF Cons.prems(1) i]
  have d: "media (deliver s i) = None"
    "Hls.autoLevelCapping (hls (deliver s i)) = Hls.autoLevelCapping (hls s)" by simp_all
  from Cons.IH [OF d(1) rest] d(2) show ?case by (simp add: run_def)
qed

section \<open>The scan of the levels\<close>

lemma loop_result:
  "getMaxLevelByMediaSize_loop lvls w h i = r \<Longrightarrow>
   (\<exists>k. i \<le> k \<and> k < length lvls \<and> r = int k \<and> matches lvls w h k \<and>
        (\<forall>j. i \<le> j \<and> j < k \<longrightarrow> \<not> matches lvls w h j)) \<or>
   (r = int (length lvls) - 1 \<and> (\<forall>j. i \<le> j \<and> j < length lvls \<longrightarrow> \<not> matches lvls w h j))"
proof (induction lvls w h i rule: getMaxLevelByMediaSize_loop.induct)
  case (1 lvls w h i)
  show ?case
  proof (cases "i < length lvls")
    case False
    with "1.prems" have "r = int (length lvls) - 1"
      by (simp add: getMaxLevelByMediaSize_loop.simps [of lvls w h i])
    moreover from False have "\<forall>j. i \<le> j \<and> j < length lvls \<longrightarrow> \<not> matches lvls w h j"
      by auto
    ultimately show ?thesis by blast
  next
    case inr: True
    then have unf: "getMaxLevelByMediaSize_loop lvls w h i =
        (if matches lvls w h i then int i else getMaxLevelByMediaSize_loop lvls w h (i + 1))"
      by (simp add: getMaxLevelByMediaSize_loop.simps [of lvls w h i] matches_def covers_def)
    show ?thesis
    proof (cases "matches lvls w h i")
      case True
      with unf "1.prems" have "r = int i" by simp
      with inr True show ?thesis by auto
    next
      case False
      with unf "1.prems" have rec: "getMaxLevelByMediaSize_loop lvls w h (i + 1) = r" by simp
      from False inr have nm: "\<not> ((Level.width (lvls ! i) \<ge> w \<or> Level.height (lvls ! i) \<ge> h) \<and>
            atGreatestBandwidth (lvls ! i) (array_get lvls (int i + 1)))"
        by (simp add: matches_def covers_def)
      from "1.IH" [OF inr nm rec]
      have "(\<exists>k. i + 1 \<le> k \<and> k < length lvls \<and> r = int k \<and> matches lvls w h k \<and>
                (\<forall>j. i + 1 \<le> j \<and> j < k \<longrightarrow> \<not> matches lvls w h j)) \<or>
            (r = int (length lvls) - 1 \<and>
                (\<forall>j. i + 1 \<le> j \<and> j < length lvls \<longrightarrow> \<not> matches lvls w h j))" .
      then show ?thesis
      proof
        assume "\<exists>k. i + 1 \<le> k \<and> k < length lvls \<and> r = int k \<and> matches lvls w h k \<and>
                (\<forall>j. i + 1 \<le> j \<and> j < k \<longrightarrow> \<not> matches lvls w h j)"
        then obtain k where k: "i + 1 \<le> k" "k < length lvls" "r = int k" "matches lvls w h k"
          "\<forall>j. i + 1 \<le> j \<and> j < k \<longrightarrow> \<not> matches lvls w h j" by blast
        have "\<forall>j. i \<le> j \<and> j < k \<longrightarrow> \<not> matches lvls w h j"
        proof (intro allI impI)
          fix j assume "i \<le> j \<and> j < k"
          then have "j = i \<or> (i + 1 \<le> j \<and> j < k)" by arith
          with False k(5) show "\<not> matches lvls w h j" by blast
        qed
        with k show ?thesis by (intro disjI1 exI [of _ k]) simp
      next
        assume a: "r = int (length lvls) - 1 \<and>
                (\<forall>j. i + 1 \<le> j \<and> j < length lvls \<longrightarrow> \<not> matches lvls w h j)"
        have "\<forall>j. i \<le> j \<and> j < length lvls \<longrightarrow> \<not> matches lvls w h j"
        proof (intro allI impI)
          fix j assume "i \<le> j \<and> j < length lvls"
          then have "j = i \<or> (i + 1 \<le> j \<and> j < length lvls)" by arith
          with False a show "\<not> matches lvls w h j" by blast
        qed
        with a show ?thesis by simp
      qed
    qed
  qed
qed

lemma covered_run_ends:
  "j < length lvls \<Longrightarrow> covers (lvls ! j) w h \<Longrightarrow>
   \<exists>k. j \<le> k \<and> k < length lvls \<and> matches lvls w h k"
proof (induction "length lvls - j" arbitrary: j)
  case 0
  then show ?case by simp
next
  case (Suc n)
  show ?case
  proof (cases "atGreatestBandwidth (lvls ! j) (array_get lvls (int j + 1))")
    case True
    with Suc.prems show ?thesis by (auto simp: matches_def)
  next
    case False
    then have nxt: "j + 1 < length lvls"
      and same: "Level.width (lvls ! j) = Level.width (lvls ! (j + 1))"
                "Level.height (lvls ! j) = Level.height (lvls ! (j + 1))"
      by (auto simp: atGreatestBandwidth_def array_get_def nat_add_distrib split: option.splits if_splits)
    from Suc.prems(2) same have "covers (lvls ! (j + 1)) w h" by (simp add: covers_def)
    moreover from Suc.hyps(2) nxt have "n = length lvls - (j + 1)" by arith
    ultimately obtain k where "j + 1 \<le> k" "k < length lvls" "matches lvls w h k"
      using Suc.hyps(1) [of "j + 1"] nxt by blast
    then show ?thesis by (intro exI [of _ k]) simp
  qed
qed

lemma validLevels_all:
  "restrictedLevels s = [] \<Longrightarrow> int (length (levels (hls s))) - 1 \<le> cap \<Longrightarrow>
   validLevels s cap = levels (hls s)"
proof -
  assume a: "restrictedLevels s = []" "int (length (levels (hls s))) - 1 \<le> cap"
  have "filter (\<lambda>(index, level). isLevelAllowed s (Some level) = Inr True \<and> int index \<le> cap)
          (enumerate 0 (levels (hls s))) = enumerate 0 (levels (hls s))"
    using a by (intro filter_True) (auto simp: isLevelAllowed_def in_set_enumerate_eq)
  then show ?thesis by (simp add: validLevels_def)
qed

section \<open>The example configurations, evaluated\<close>

lemma boundsRect_video_of_size [simp]:
  "boundsRect (Some (video_of_size w h)) = \<lparr>Dimensions.width = w, height = h\<rparr>"
  by (simp add: boundsRect_def video_of_size_def js_or_def Let_def)

lemma player_eq:
  "player lvls cap w h =
     \<lparr>hls = hls_with lvls cap, autoLevelCapping = POSITIVE_INFINITY, firstLevel = - 1,
      media = Some (video_of_size w h), restrictedLevels = [], timer = None, clientRect = None,
      streamController = False, devicePixelRatio = Some 1, intervals = 0, effects = []\<rparr>"
  by (simp add: player_def constructor_def onMediaAttaching_def)

lemma hls_with_fields [simp]:
  "levels (hls_with lvls cap) = lvls" "maxLevelCapping (hls_with lvls cap) = cap"
  "Hls.autoLevelCapping (hls_with lvls cap) = - 1"
  "ignoreDevicePixelRatio (config (hls_with lvls cap)) = False"
  "capLevelToPlayerSize (config (hls_with lvls cap)) = True"
  by (simp_all add: hls_with_def)

lemma player_fields [simp]:
  "hls (player lvls cap w h) = hls_with lvls cap"
  "CapLevelController.autoLevelCapping (player lvls cap w h) = POSITIVE_INFINITY"
  "media (player lvls cap w h) = Some (video_of_size w h)"
  "restrictedLevels (player lvls cap w h) = []"
  "clientRect (player lvls cap w h) = None"
  "streamController (player lvls cap w h) = False"
  "devicePixelRatio (player lvls cap w h) = Some 1"
  "effects (player lvls cap w h) = []"
  "timer (player lvls cap w h) = None"
  by (simp_all add: player_eq)

lemmas scan_defs =
  getMaxLevelByMediaSize_def getMaxLevelByMediaSize_loop.simps atGreatestBandwidth_def
  array_get_def rung_def

lemma scan_four_rungs_640: "getMaxLevelByMediaSize four_rungs 640 360 = 1"
  by (simp add: four_rungs_def scan_defs)
lemma scan_four_rungs_1920: "getMaxLevelByMediaSize four_rungs 1920 1080 = 3"
  by (simp add: four_rungs_def scan_defs)
lemma scan_tie_break_rungs: "getMaxLevelByMediaSize tie_break_rungs 640 360 = 1"
  by (simp add: tie_break_rungs_def scan_defs)

lemma csf_player [simp]: "contentScaleFactor (player lvls cap w h) = 1"
  by (simp add: contentScaleFactor_def)

lemma validLevels_player:
  "int (length lvls) - 1 \<le> c \<Longrightarrow> validLevels (player lvls cap w h) c = lvls"
  by (simp add: validLevels_all)

lemma length_rungs [simp]:
  "length four_rungs = 4" "length three_rungs = 3" "length tie_break_rungs = 3"
  "four_rungs \<noteq> []" "three_rungs \<noteq> []" "tie_break_rungs \<noteq> []"
  by (simp_all add: four_rungs_def three_rungs_def tie_break_rungs_def)

lemma maxLevelByMediaSize_player:
  "int (length lvls) - 1 \<le> c \<Longrightarrow>
   maxLevelByMediaSize (player lvls cap w h) c =
     getMaxLevelByMediaSize lvls (js_times w 1) (js_times h 1)"
  by (simp add: maxLevelByMediaSize_def validLevels_player)

lemma tick_evaluates_player:
  "0 < js_times w 1 \<Longrightarrow> 0 < js_times h 1 \<Longrightarrow> lvls \<noteq> [] \<Longrightarrow>
   tick_evaluates (setStreamController (player lvls cap w h))"
  by (simp add: tick_evaluates_def mediaHeight_eq mediaWidth_eq getDimensions_def
      setStreamController_def contentScaleFactor_def)

lemma new_cap_player:
  "new_cap (setStreamController (player four_rungs (- 1) 640 360)) = 1"
  by (simp add: new_cap_def setStreamController_def getMaxLevel_nonempty maxLevelByMediaSize_def
      validLevels_all contentScaleFactor_def scan_four_rungs_640)

lemma capped_player_eq:
  "capped_player =
     \<lparr>hls = (hls_with four_rungs (- 1))\<lparr>Hls.autoLevelCapping := 1\<rparr>,
      autoLevelCapping = Finite 1, firstLevel = - 1,
      media = Some (video_of_size 640 360), restrictedLevels = [], timer = None,
      clientRect = Some \<lparr>Dimensions.width = 640, height = 360\<rparr>,
      streamController = True, devicePixelRatio = Some 1, intervals = 0,
      effects = [SetAutoLevelCapping 1]\<rparr>"
  unfolding capped_player_def
  by (simp add: detectPlayerSize_evaluates tick_evaluates_player new_cap_player)
     (simp add: setStreamController_def player_eq)

lemma capped_player_fields [simp]:
  "hls capped_player = (hls_with four_rungs (- 1))\<lparr>Hls.autoLevelCapping := 1\<rparr>"
  "CapLevelController.autoLevelCapping capped_player = Finite 1"
  "media capped_player = Some (video_of_size 640 360)"
  "restrictedLevels capped_player = []"
  "streamController capped_player = True"
  "devicePixelRatio capped_player = Some 1"
  "effects capped_player = [SetAutoLevelCapping 1]"
  "timer capped_player = None"
  by (simp_all add: capped_player_eq)

lemma restricted_player_eq:
  "restricted_player =
     (player three_rungs (- 1) 1280 720)
       \<lparr>restrictedLevels := [\<lparr>RestrictedLevel.width = 320, height = 180, bitrate = 100000\<rparr>]\<rparr>"
  by (simp add: restricted_player_def onFpsDropLevelCapping_def isLevelAllowed_def array_get_def
      three_rungs_def rung_def)

lemma restricted_player_fields [simp]:
  "hls restricted_player = hls_with three_rungs (- 1)"
  "media restricted_player = Some (video_of_size 1280 720)"
  "restrictedLevels restricted_player =
     [\<lparr>RestrictedLevel.width = 320, height = 180, bitrate = 100000\<rparr>]"
  "devicePixelRatio restricted_player = Some 1"
  by (simp_all add: restricted_player_eq)

lemma validLevels_restricted_player:
  "validLevels restricted_player 2 = [rung 640 360 500000, rung 1280 720 1500000]"
  by (simp add: validLevels_def isLevelAllowed_def three_rungs_def rung_def)

lemma scan_two_rungs:
  "getMaxLevelByMediaSize [rung 640 360 500000, rung 1280 720 1500000] 1280 720 = 1"
  by (simp add: scan_defs)

lemma restricted_tick:
  "tick_evaluates restricted_player" "new_cap restricted_player = 1"
  by (simp_all add: tick_evaluates_def new_cap_def mediaHeight_eq mediaWidth_eq getDimensions_def
      restricted_player_eq contentScaleFactor_def getMaxLevel_nonempty maxLevelByMediaSize_def
      validLevels_restricted_player [unfolded restricted_player_eq] scan_two_rungs)

lemma enlarged_fields:
  "tick_evaluates (onMediaAttaching capped_player (VideoElement (video_of_size 1920 1080)))"
  "new_cap (onMediaAttaching capped_player (VideoElement (video_of_size 1920 1080))) = 3"
  "tick_evaluates (onMediaAttaching capped_player (VideoElement (video_of_size 320 180)))"
  "new_cap (onMediaAttaching capped_player (VideoElement (video_of_size 320 180))) = 0"
  "tick_evaluates capped_player"
  "new_cap capped_player = 1"
  by (simp_all add: tick_evaluates_def new_cap_def mediaHeight_eq mediaWidth_eq getDimensions_def
      onMediaAttaching_def contentScaleFactor_def getMaxLevel_nonempty maxLevelByMediaSize_def
      validLevels_all capped_player_eq scan_defs four_rungs_def hls_with_def)

lemma zero_size_fields:
  "fst (mediaHeight (onMediaAttaching capped_player (VideoElement (video_of_size 0 0)))) = 0"
  "fst (mediaWidth (onMediaAttaching capped_player (VideoElement (video_of_size 0 0)))) = 0"
  "fst (getDimensions (onMediaAttaching capped_player (VideoElement (video_of_size 0 0)))) =
     \<lparr>Dimensions.width = 0, height = 0\<rparr>"
  by (simp_all add: mediaHeight_eq mediaWidth_eq getDimensions_def onMediaAttaching_def)

lemma hidden_player_eq:
  "hidden_player = capped_player\<lparr>media := Some (video_of_size 0 0)\<rparr>"
  by (simp add: hidden_player_def layout_def)

lemma hidden_player_tick:
  "tick_evaluates hidden_player" "new_cap hidden_player = 0"
  "measuredWidth hidden_player = 0" "measuredHeight hidden_player = 0"
  by (simp_all add: hidden_player_eq tick_evaluates_def new_cap_def mediaHeight_eq mediaWidth_eq
      getDimensions_def contentScaleFactor_def getMaxLevel_nonempty maxLevelByMediaSize_def
      measuredWidth_def measuredHeight_def validLevels_all capped_player_eq scan_defs
      four_rungs_def hls_with_def)

section \<open>The claims\<close>

text \<open>
  C1. The claim: \<open>getMaxLevel\<close> returns the first matching candidate as its index in the
  unfiltered list \<open>hls.levels\<close>, also when a restricted level stood before it. Evaluated
  on three levels of which the first is restricted, with an element of 1280 x 720 and cap
  index 2: the candidates are the levels 1 and 2, the match is the 1280 x 720 level, which is
  level 2 of \<open>hls.levels\<close>, and \<open>getMaxLevel\<close> returns 1, its position among the
  candidates, where \<open>hls.levels\<close> has the 640 x 360 level. A tick publishes that 1 as
  \<open>hls.autoLevelCapping\<close>.
\<close>

theorem getMaxLevel_index_in_filtered_list:
  "validLevels restricted_player 2 = [rung 640 360 500000, rung 1280 720 1500000] \<and>
   fst (getMaxLevel restricted_player 2) = 1 \<and>
   array_get (levels (hls restricted_player)) 1 = Some (rung 640 360 500000) \<and>
   array_get (levels (hls restricted_player)) 2 = Some (rung 1280 720 1500000) \<and>
   Hls.autoLevelCapping (hls (detectPlayerSize restricted_player)) = 1"
proof -
  have m: "maxLevelByMediaSize restricted_player 2 = 1"
    by (simp add: maxLevelByMediaSize_def validLevels_restricted_player scan_two_rungs
        contentScaleFactor_def)
  have g: "fst (getMaxLevel restricted_player 2) = 1"
    using m by (simp add: getMaxLevel_nonempty)
  have a: "array_get three_rungs 1 = Some (rung 640 360 500000)"
    "array_get three_rungs 2 = Some (rung 1280 720 1500000)"
    by (simp_all add: array_get_def three_rungs_def)
  have p: "Hls.autoLevelCapping (hls (detectPlayerSize restricted_player)) = 1"
    by (simp add: detectPlayerSize_evaluates restricted_tick)
  show ?thesis using validLevels_restricted_player g a p by simp
qed

theorem getMaxLevel_index_in_filtered_list_witness:
  "fst (getMaxLevel restricted_player 2) \<noteq> 2"
  using getMaxLevel_index_in_filtered_list by simp

text \<open>
  C2. The claim: a drop notification for an index outside the list completes without an
  error. On three levels, index 3 throws a TypeError.
\<close>

theorem onFpsDropLevelCapping_out_of_range_counterexample:
  "fst (onFpsDropLevelCapping (player three_rungs (- 1) 1280 720) 3) = Throw TypeError"
  by (simp add: onFpsDropLevelCapping_def isLevelAllowed_def array_get_def)

text \<open>
  C2, as amended. For every list of levels and every index outside it, the handler leaves
  the restricted levels, and the whole state, as they were, and it does not return: reading
  the fields of the missing level throws a TypeError.
\<close>

theorem onFpsDropLevelCapping_out_of_range:
  assumes "droppedLevel < 0 \<or> int (length (levels (hls s))) \<le> droppedLevel"
  shows "onFpsDropLevelCapping s droppedLevel = (Throw TypeError, s)"
proof -
  from assms have "array_get (levels (hls s)) droppedLevel = None"
    by (auto simp: array_get_def)
  then show ?thesis
    by (simp add: onFpsDropLevelCapping_def isLevelAllowed_def)
qed

theorem onFpsDropLevelCapping_out_of_range_witness:
  "onFpsDropLevelCapping capped_player (- 1) = (Throw TypeError, capped_player) \<and>
   onFpsDropLevelCapping capped_player 4 = (Throw TypeError, capped_player) \<and>
   restrictedLevels (snd (onFpsDropLevelCapping capped_player 4)) = restrictedLevels capped_player"
  using onFpsDropLevelCapping_out_of_range [of "- 1" capped_player]
    onFpsDropLevelCapping_out_of_range [of 4 capped_player]
  by simp

text \<open>
  C3. The claim: \<open>getMaxLevel\<close> leaves every field, the cached measurement among them,
  unchanged. On a player with an empty cache the call leaves the box 1280 x 720 cached.
\<close>

theorem getMaxLevel_pure_counterexample:
  "clientRect (player three_rungs (- 1) 1280 720) = None \<and>
   clientRect (snd (getMaxLevel (player three_rungs (- 1) 1280 720) 2)) =
     Some \<lparr>Dimensions.width = 1280, height = 720\<rparr>"
  by (simp add: getMaxLevel_state)

text \<open>
  C3, as amended. \<open>getMaxLevel\<close> changes no field but the cached measurement: with no
  levels it changes nothing, and otherwise it drops the cache and stores a fresh measurement
  of the attached element.
\<close>

theorem getMaxLevel_frame:
  "snd (getMaxLevel s cap) =
     (if levels (hls s) = [] then s else s\<lparr>clientRect := Some (boundsRect (media s))\<rparr>)"
  by (rule getMaxLevel_state)

theorem getMaxLevel_frame_witness:
  "snd (getMaxLevel capped_player 3) =
     capped_player\<lparr>clientRect := Some \<lparr>Dimensions.width = 640, height = 360\<rparr>\<rparr> \<and>
   snd (getMaxLevel (player [] (- 1) 640 360) 3) = player [] (- 1) 640 360"
  using getMaxLevel_frame [of capped_player 3] getMaxLevel_frame [of "player [] (- 1) 640 360" 3]
  by simp

text \<open>
  C4. With no restricted level and a cap index that reaches the end of the list, for every
  footprint: when some level is at least as wide or at least as high as the footprint, the
  selection returns the index of such a level; when none is, it returns the last index of
  the list (\<open>- 1\<close> on the empty list). The levels need not be sorted for this.
\<close>

theorem getMaxLevelByMediaSize_coverage:
  assumes "restrictedLevels s = []" and "int (length (levels (hls s))) - 1 \<le> cap"
  shows "(let r = getMaxLevelByMediaSize (validLevels s cap) w h in
          if \<exists>level \<in> set (levels (hls s)). covers level w h
          then 0 \<le> r \<and> r < int (length (levels (hls s))) \<and> covers (levels (hls s) ! nat r) w h
          else r = int (length (levels (hls s))) - 1)"
proof (cases "levels (hls s) = []")
  case True
  with assms show ?thesis by (simp add: validLevels_all getMaxLevelByMediaSize_def)
next
  case False
  define lvls where "lvls = levels (hls s)"
  define r where "r = getMaxLevelByMediaSize_loop lvls w h 0"
  from False assms have eq: "getMaxLevelByMediaSize (validLevels s cap) w h = r"
    by (simp add: validLevels_all getMaxLevelByMediaSize_def r_def lvls_def)
  from loop_result [OF r_def [symmetric]]
  have res: "(\<exists>k. k < length lvls \<and> r = int k \<and> matches lvls w h k) \<or>
        (r = int (length lvls) - 1 \<and> (\<forall>j. j < length lvls \<longrightarrow> \<not> matches lvls w h j))"
    by auto
  show ?thesis
  proof (cases "\<exists>level \<in> set lvls. covers level w h")
    case True
    then obtain j where "j < length lvls" "covers (lvls ! j) w h"
      by (auto simp: in_set_conv_nth)
    from covered_run_ends [OF this] res
    obtain k where "k < length lvls" "r = int k" "matches lvls w h k" by blast
    with True eq show ?thesis by (simp add: lvls_def [symmetric] matches_def)
  next
    case False
    then have "\<forall>j. j < length lvls \<longrightarrow> \<not> matches lvls w h j"
      by (auto simp: matches_def)
    with res have "r = int (length lvls) - 1" by auto
    with False eq show ?thesis by (simp add: lvls_def [symmetric])
  qed
qed

theorem getMaxLevelByMediaSize_coverage_witness:
  "restrictedLevels (player four_rungs (- 1) 1000 500) = [] \<and>
   int (length (levels (hls (player four_rungs (- 1) 1000 500)))) - 1 \<le> 3 \<and>
   covers (four_rungs ! 2) 1000 500 \<and>
   0 \<le> getMaxLevelByMediaSize (validLevels (player four_rungs (- 1) 1000 500) 3) 1000 500 \<and>
   covers (four_rungs !
     nat (getMaxLevelByMediaSize (validLevels (player four_rungs (- 1) 1000 500) 3) 1000 500))
     1000 500 \<and>
   getMaxLevelByMediaSize (validLevels (player four_rungs (- 1) 4000 3000) 3) 4000 3000 = 3"
proof -
  have c: "covers (four_rungs ! 2) 1000 500"
    by (simp add: four_rungs_def covers_def rung_def)
  then have ex: "\<exists>level \<in> set four_rungs. covers level 1000 500"
    by (auto simp: four_rungs_def)
  have nex: "\<not> (\<exists>level \<in> set four_rungs. covers level 4000 3000)"
    by (simp add: four_rungs_def covers_def rung_def)
  from getMaxLevelByMediaSize_coverage [of "player four_rungs (- 1) 1000 500" 3 1000 500]
    getMaxLevelByMediaSize_coverage [of "player four_rungs (- 1) 4000 3000" 3 4000 3000]
    c ex nex
  show ?thesis by (simp add: Let_def)
qed

text \<open>
  C5. On the levels 640 x 360 at 500 kbps, 640 x 360 at 800 kbps and 1280 x 720 at 1500 kbps,
  with a footprint of 640 x 360, no restricted level and cap index 2, the selection returns
  index 1, the 800 kbps level, and not index 0: both the scan of the candidates and
  \<open>getMaxLevel\<close> on a player whose element measures 640 x 360.
\<close>

theorem greatest_bandwidth_tie_break:
  "getMaxLevelByMediaSize (validLevels (player tie_break_rungs (- 1) 640 360) 2) 640 360 = 1 \<and>
   fst (getMaxLevel (player tie_break_rungs (- 1) 640 360) 2) = 1"
  by (simp add: validLevels_player getMaxLevel_nonempty maxLevelByMediaSize_player
      scan_tie_break_rungs)

theorem greatest_bandwidth_tie_break_witness:
  "fst (getMaxLevel (player tie_break_rungs (- 1) 640 360) 2) \<noteq> 0"
  using greatest_bandwidth_tie_break by simp

text \<open>
  C6. The restricted levels never hold the same triple of bitrate, width and height twice:
  every sequence of notifications, drop notifications and all others, keeps the list free
  of duplicates, from any state whose list is and so from the constructor's; and two drop
  notifications for the same level, from an empty list, leave one entry.
\<close>

theorem restrictedLevels_distinct:
  "(distinct (restrictedLevels s) \<longrightarrow> distinct (restrictedLevels (run s ins))) \<and>
   distinct (restrictedLevels (run (constructor h ratio) ins)) \<and>
   (restrictedLevels s = [] \<and> 0 \<le> i \<and> i < int (length (levels (hls s))) \<longrightarrow>
      length (restrictedLevels (run s [FPS_DROP_LEVEL_CAPPING i, FPS_DROP_LEVEL_CAPPING i])) = 1)"
  by (simp add: run_distinct drop_twice constructor_def)

theorem restrictedLevels_distinct_witness:
  "distinct (restrictedLevels restricted_player) \<and>
   distinct (restrictedLevels (run restricted_player
     [FPS_DROP_LEVEL_CAPPING 0, FPS_DROP_LEVEL_CAPPING 2, TIMER_TICK, FPS_DROP_LEVEL_CAPPING 0])) \<and>
   restrictedLevels capped_player = [] \<and>
   length (restrictedLevels (run capped_player
     [FPS_DROP_LEVEL_CAPPING 1, FPS_DROP_LEVEL_CAPPING 1])) = 1"
  using restrictedLevels_distinct [of restricted_player
      "[FPS_DROP_LEVEL_CAPPING 0, FPS_DROP_LEVEL_CAPPING 2, TIMER_TICK, FPS_DROP_LEVEL_CAPPING 0]"]
    restrictedLevels_distinct [of capped_player "[]" _ _ 1]
  by simp

text \<open>
  C7. The claim: whenever \<open>maxLevelCapping\<close> is not \<open>- 1\<close>, \<open>getMaxLevel\<close> returns the
  minimum of it and the cap computed from the size. With no levels and
  \<open>maxLevelCapping = - 2\<close> the minimum is \<open>- 2\<close> and \<open>getMaxLevel\<close> returns \<open>- 1\<close>.
\<close>

theorem ceiling_clamp_counterexample:
  "maxLevelCapping (hls (player [] (- 2) 640 360)) = - 2 \<and>
   maxLevelByMediaSize (player [] (- 2) 640 360) 0 = - 1 \<and>
   min (maxLevelCapping (hls (player [] (- 2) 640 360)))
       (maxLevelByMediaSize (player [] (- 2) 640 360) 0) = - 2 \<and>
   fst (getMaxLevel (player [] (- 2) 640 360) 0) = - 1"
  by (simp add: getMaxLevel_empty maxLevelByMediaSize_player getMaxLevelByMediaSize_def)

text \<open>
  C7, as amended. On a list of levels that is not empty, \<open>getMaxLevel\<close> returns the minimum
  of \<open>maxLevelCapping\<close> and the cap computed from the size when \<open>maxLevelCapping\<close> is not
  \<open>- 1\<close>, and the cap computed from the size when it is; on the empty list it returns
  \<open>- 1\<close> whatever \<open>maxLevelCapping\<close> is.
\<close>

theorem getMaxLevel_ceiling_clamp:
  "fst (getMaxLevel s cap) =
     (if levels (hls s) = [] then - 1
      else if maxLevelCapping (hls s) \<noteq> - 1
           then min (maxLevelCapping (hls s)) (maxLevelByMediaSize s cap)
           else maxLevelByMediaSize s cap)"
  by (simp add: getMaxLevel_empty getMaxLevel_nonempty)

theorem getMaxLevel_ceiling_clamp_witness:
  "maxLevelByMediaSize (player four_rungs 1 1920 1080) 3 = 3 \<and>
   fst (getMaxLevel (player four_rungs 1 1920 1080) 3) = 1 \<and>
   fst (getMaxLevel (player four_rungs (- 1) 1920 1080) 3) = 3"
  using getMaxLevel_ceiling_clamp [of "player four_rungs 1 1920 1080" 3]
    getMaxLevel_ceiling_clamp [of "player four_rungs (- 1) 1920 1080" 3]
  by (simp add: maxLevelByMediaSize_player scan_four_rungs_1920)

text \<open>
  C8. What a call of \<open>detectPlayerSize\<close> adds to the trace of effects: nothing when the
  tick is skipped; otherwise the publication of the new cap, followed by one
  \<open>nextLevelSwitch\<close> exactly when the new cap is greater than the previous one and a
  stream controller is registered. The previous cap is the controller's own
  \<open>autoLevelCapping\<close>, which holds the cap the last evaluation published, or infinity when
  there has been none since the controller was started or stopped.
\<close>

theorem detectPlayerSize_nextLevelSwitch:
  "effects (detectPlayerSize s) =
     effects s @
       (if tick_evaluates s
        then SetAutoLevelCapping (new_cap s) #
             (if greater (new_cap s) (CapLevelController.autoLevelCapping s) \<and> streamController s
              then [NextLevelSwitch] else [])
        else []) \<and>
   Hls.autoLevelCapping (hls (detectPlayerSize s)) =
     (if tick_evaluates s then new_cap s else Hls.autoLevelCapping (hls s)) \<and>
   CapLevelController.autoLevelCapping (detectPlayerSize s) =
     (if tick_evaluates s then Finite (new_cap s) else CapLevelController.autoLevelCapping s)"
  by (cases "tick_evaluates s")
     (simp_all add: detectPlayerSize_evaluates detectPlayerSize_skip)

theorem detectPlayerSize_nextLevelSwitch_witness:
  "effects capped_player = [SetAutoLevelCapping 1] \<and>
   effects (detectPlayerSize
     (onMediaAttaching capped_player (VideoElement (video_of_size 1920 1080)))) =
     [SetAutoLevelCapping 1, SetAutoLevelCapping 3, NextLevelSwitch] \<and>
   effects (detectPlayerSize capped_player) = [SetAutoLevelCapping 1, SetAutoLevelCapping 1] \<and>
   effects (detectPlayerSize
     (onMediaAttaching capped_player (VideoElement (video_of_size 320 180)))) =
     [SetAutoLevelCapping 1, SetAutoLevelCapping 0]"
  using
    detectPlayerSize_nextLevelSwitch
      [of "onMediaAttaching capped_player (VideoElement (video_of_size 1920 1080))"]
    detectPlayerSize_nextLevelSwitch [of capped_player]
    detectPlayerSize_nextLevelSwitch
      [of "onMediaAttaching capped_player (VideoElement (video_of_size 320 180))"]
  by (simp add: enlarged_fields) (simp add: onMediaAttaching_def)

text \<open>
  C9. The claim: a tick in which the surface measures a zero width or height leaves the
  published cap and all the state unchanged. Two states at which it does not. On a
  zero-sized element that has just been attached, the cache is empty before the tick and
  holds the box 0 x 0 after it. On the player that has published cap 1 from a 640 x 360
  element that has since shrunk to nothing, the guard reads the cached box 640 x 360, the
  tick is not skipped, and it publishes cap 0.
\<close>

theorem zero_size_tick_counterexample:
  "measuredHeight (onMediaAttaching capped_player (VideoElement (video_of_size 0 0))) = 0 \<and>
   clientRect (onMediaAttaching capped_player (VideoElement (video_of_size 0 0))) = None \<and>
   clientRect (detectPlayerSize
     (onMediaAttaching capped_player (VideoElement (video_of_size 0 0)))) =
     Some \<lparr>Dimensions.width = 0, height = 0\<rparr> \<and>
   measuredWidth hidden_player = 0 \<and> measuredHeight hidden_player = 0 \<and>
   Hls.autoLevelCapping (hls hidden_player) = 1 \<and>
   Hls.autoLevelCapping (hls (detectPlayerSize hidden_player)) = 0"
proof -
  let ?z = "onMediaAttaching capped_player (VideoElement (video_of_size 0 0))"
  have "\<not> tick_evaluates ?z"
    by (simp add: tick_evaluates_def zero_size_fields)
  then have z: "clientRect (detectPlayerSize ?z) = Some \<lparr>Dimensions.width = 0, height = 0\<rparr>"
    by (simp add: detectPlayerSize_skip zero_size_fields) (simp add: onMediaAttaching_def)
  have m: "measuredHeight ?z = 0" "clientRect ?z = None"
    by (simp_all add: measuredHeight_def onMediaAttaching_def)
  have h: "Hls.autoLevelCapping (hls hidden_player) = 1"
    "Hls.autoLevelCapping (hls (detectPlayerSize hidden_player)) = 0"
    by (simp_all add: detectPlayerSize_evaluates hidden_player_tick)
       (simp add: hidden_player_eq)
  show ?thesis using z m h by (simp add: hidden_player_tick)
qed

text \<open>
  C9, as amended. In a state whose cache is empty or holds the present measurement of the
  surface, or that has no surface, a tick in which the surface measures a width or a height
  that is not positive leaves every field of the controller unchanged but the cached
  measurement; in particular it publishes no cap and makes no call on a collaborator; and
  it throws nothing. What a tick does on a cache that holds an older measurement is not
  part of the statement.
\<close>

theorem detectPlayerSize_zero_size:
  assumes "measuredWidth s \<le> 0 \<or> measuredHeight s \<le> 0"
    and "media s = None \<or> clientRect s = None \<or> clientRect s = Some (boundsRect (media s))"
  shows "detectPlayerSize s = s\<lparr>clientRect := clientRect (detectPlayerSize s)\<rparr> \<and>
         Hls.autoLevelCapping (hls (detectPlayerSize s)) = Hls.autoLevelCapping (hls s) \<and>
         effects (detectPlayerSize s) = effects s"
proof -
  have "\<not> tick_evaluates s"
  proof (cases "media s = None")
    case True
    then show ?thesis by (simp add: tick_evaluates_def)
  next
    case False
    with assms(2) have "fst (getDimensions s) = boundsRect (media s)"
      by (auto simp: getDimensions_def)
    with assms(1) show ?thesis
      by (auto simp: tick_evaluates_def mediaHeight_eq mediaWidth_eq measuredWidth_def
          measuredHeight_def)
  qed
  then have "detectPlayerSize s =
      (if media s = None then s else s\<lparr>clientRect := Some (fst (getDimensions s))\<rparr>)"
    by (rule detectPlayerSize_skip)
  then show ?thesis by simp
qed

theorem detectPlayerSize_zero_size_witness:
  "measuredHeight (onMediaAttaching capped_player (VideoElement (video_of_size 0 0))) = 0 \<and>
   clientRect (onMediaAttaching capped_player (VideoElement (video_of_size 0 0))) = None \<and>
   Hls.autoLevelCapping (hls (detectPlayerSize
     (onMediaAttaching capped_player (VideoElement (video_of_size 0 0))))) = 1 \<and>
   CapLevelController.autoLevelCapping (detectPlayerSize
     (onMediaAttaching capped_player (VideoElement (video_of_size 0 0)))) = Finite 1 \<and>
   effects (detectPlayerSize
     (onMediaAttaching capped_player (VideoElement (video_of_size 0 0)))) =
     [SetAutoLevelCapping 1]"
proof -
  let ?z = "onMediaAttaching capped_player (VideoElement (video_of_size 0 0))"
  have f: "Hls.autoLevelCapping (hls ?z) = 1" "effects ?z = [SetAutoLevelCapping 1]"
    "CapLevelController.autoLevelCapping ?z = Finite 1"
    by (simp_all add: onMediaAttaching_def)
  have m: "measuredHeight ?z = 0" "clientRect ?z = None"
    by (simp_all add: measuredHeight_def onMediaAttaching_def)
  from detectPlayerSize_zero_size [of ?z] m
  have d: "detectPlayerSize ?z = ?z\<lparr>clientRect := clientRect (detectPlayerSize ?z)\<rparr>"
    "Hls.autoLevelCapping (hls (detectPlayerSize ?z)) = Hls.autoLevelCapping (hls ?z)"
    "effects (detectPlayerSize ?z) = effects ?z"
    by simp_all
  have "CapLevelController.autoLevelCapping (detectPlayerSize ?z) =
      CapLevelController.autoLevelCapping (?z\<lparr>clientRect := clientRect (detectPlayerSize ?z)\<rparr>)"
    using d(1) by simp
  then have "CapLevelController.autoLevelCapping (detectPlayerSize ?z) = Finite 1"
    using f(3) by simp
  with d(2,3) f m show ?thesis by simp
qed

text \<open>
  C10. After \<open>MEDIA_ATTACHING\<close> with an element that is not a video, \<open>media\<close> is null and the
  cache is empty; and after any further inputs among which no video is attached, \<open>media\<close>
  is still null, a tick changes nothing, and \<open>hls.autoLevelCapping\<close> is what it was.
\<close>

theorem non_video_attach_freezes_cap:
  assumes "\<forall>m. MEDIA_ATTACHING (VideoElement m) \<notin> set ins"
  shows "media (onMediaAttaching s OtherMediaElement) = None \<and>
         clientRect (onMediaAttaching s OtherMediaElement) = None \<and>
         media (run (onMediaAttaching s OtherMediaElement) ins) = None \<and>
         detectPlayerSize (run (onMediaAttaching s OtherMediaElement) ins) =
           run (onMediaAttaching s OtherMediaElement) ins \<and>
         Hls.autoLevelCapping (hls (run (onMediaAttaching s OtherMediaElement) ins)) =
           Hls.autoLevelCapping (hls s)"
proof -
  have m: "media (onMediaAttaching s OtherMediaElement) = None"
    and h: "hls (onMediaAttaching s OtherMediaElement) = hls s"
    by (simp_all add: onMediaAttaching_def)
  from run_no_media [OF m assms] h
  show ?thesis by (simp add: detectPlayerSize_no_media onMediaAttaching_def)
qed

theorem non_video_attach_freezes_cap_witness:
  "media (run (onMediaAttaching capped_player OtherMediaElement)
     [TIMER_TICK, MANIFEST_PARSED 2 True, TIMER_TICK, FPS_DROP_LEVEL_CAPPING 0,
      MEDIA_ATTACHING OtherMediaElement, BUFFER_CODECS True, TIMER_TICK, MEDIA_DETACHING,
      SET_STREAM_CONTROLLER, TIMER_TICK]) = None \<and>
   Hls.autoLevelCapping (hls (run (onMediaAttaching capped_player OtherMediaElement)
     [TIMER_TICK, MANIFEST_PARSED 2 True, TIMER_TICK, FPS_DROP_LEVEL_CAPPING 0,
      MEDIA_ATTACHING OtherMediaElement, BUFFER_CODECS True, TIMER_TICK, MEDIA_DETACHING,
      SET_STREAM_CONTROLLER, TIMER_TICK])) = 1"
  using non_video_attach_freezes_cap [of
     "[TIMER_TICK, MANIFEST_PARSED 2 True, TIMER_TICK, FPS_DROP_LEVEL_CAPPING 0,
      MEDIA_ATTACHING OtherMediaElement, BUFFER_CODECS True, TIMER_TICK, MEDIA_DETACHING,
      SET_STREAM_CONTROLLER, TIMER_TICK]" capped_player]
  by simp

end
